theory Spec2Isabelle
  imports Complex_Main
begin

section \<open>Drowsiness detection: the webcam loop of test\_inference.py\<close>

text \<open>
  The loop body of \<open>test_webcam\<close> (test\_inference.py, lines 46--99; the same body
  is in test\_tflite\_inference.py, lines 129--185) is embedded as a function from the
  loop's three local variables and the raw detections of one frame to the updated
  variables and the line printed, if any.

  A raw detection is the pair \<open>(class_name, conf)\<close> the loop reads off a box. Python's
  floats are modelled as exact reals: comparisons are the same on finite floats, sums
  and quotients are taken without rounding.
\<close>

type_synonym detection = "string \<times> real"

subsection \<open>Highest-confidence detection of a frame (lines 60--72)\<close>

text \<open>
  \<^verbatim>\<open>
  current_detection = None
  for i in range(len(boxes.data)):
      ...
      if current_detection is None or conf > current_detection[1]:
          current_detection = (class_name, conf)
  \<close>
\<close>

fun best_step :: "detection option \<Rightarrow> detection \<Rightarrow> detection option" where
  "best_step None (class_name, conf) = Some (class_name, conf)"
| "best_step (Some cur) (class_name, conf) =
     (if conf > snd cur then Some (class_name, conf) else Some cur)"

fun best_loop :: "detection option \<Rightarrow> detection list \<Rightarrow> detection option" where
  "best_loop current_detection [] = current_detection"
| "best_loop current_detection (d # ds) = best_loop (best_step current_detection d) ds"

definition best_detection :: "detection list \<Rightarrow> detection option" where
  "best_detection boxes = best_loop None boxes"

text \<open>
  The TFLite loop (test\_tflite\_inference.py, lines 141--146) scans triples
  \<open>(class_name, confidence, bbox)\<close> and keeps the pair \<open>(class_name, confidence)\<close>.
\<close>

fun best_step_tflite :: "detection option \<Rightarrow> string \<times> real \<times> 'b \<Rightarrow> detection option" where
  "best_step_tflite None (class_name, confidence, bbox) = Some (class_name, confidence)"
| "best_step_tflite (Some cur) (class_name, confidence, bbox) =
     (if confidence > snd cur then Some (class_name, confidence) else Some cur)"

fun best_loop_tflite :: "detection option \<Rightarrow> (string \<times> real \<times> 'b) list \<Rightarrow> detection option" where
  "best_loop_tflite current_detection [] = current_detection"
| "best_loop_tflite current_detection (det # dets) =
     best_loop_tflite (best_step_tflite current_detection det) dets"

definition best_detection_tflite :: "(string \<times> real \<times> 'b) list \<Rightarrow> detection option" where
  "best_detection_tflite detections = best_loop_tflite None detections"

subsection \<open>The history window: \<open>deque(maxlen=5)\<close> (lines 43, 76)\<close>

definition maxlen :: nat where
  "maxlen = 5"

text \<open>
  \<open>deque.append\<close> on a bounded deque: the item is appended on the right and, when the
  deque is then longer than \<open>maxlen\<close>, one item is discarded from the left.
\<close>

definition deque_append :: "'a list \<Rightarrow> 'a \<Rightarrow> 'a list" where
  "deque_append q x = (let q' = q @ [x] in if length q' > maxlen then tl q' else q')"

subsection \<open>Rolling state (lines 79--91)\<close>

definition drowsy_count :: "detection list \<Rightarrow> nat" where
  "drowsy_count h = sum_list (map (\<lambda>d. 1) (filter (\<lambda>d. fst d = ''drowsy'') h))"

definition notdrowsy_count :: "detection list \<Rightarrow> nat" where
  "notdrowsy_count h = sum_list (map (\<lambda>d. 1) (filter (\<lambda>d. fst d = ''notdrowsy'') h))"

text \<open>Only evaluated behind the guard \<open>len(detection_history) >= 1\<close>.\<close>

definition avg_conf :: "detection list \<Rightarrow> real" where
  "avg_conf h = sum_list (map snd h) / real (length h)"

definition current_state :: "detection list \<Rightarrow> string" where
  "current_state h =
     (if drowsy_count h > notdrowsy_count h then ''DROWSY''
      else if notdrowsy_count h > drowsy_count h then ''ALERT''
      else ''UNCERTAIN'')"

subsection \<open>One iteration of the loop\<close>

record stabilizer =
  inference_count :: nat
  detection_history :: "detection list"
  last_reported_state :: "string option"

definition init :: stabilizer where
  "init = \<lparr>inference_count = 0, detection_history = [], last_reported_state = None\<rparr>"

text \<open>
  The two \<open>print\<close> calls of the loop: the state line carries the frame number, the
  state, the average confidence and the two counts; the other line the frame number.
\<close>

datatype report =
    StateReport nat string real nat nat
  | NoDetections nat

fun report_frame :: "report \<Rightarrow> nat" where
  "report_frame (StateReport n st avg dc nc) = n"
| "report_frame (NoDetections n) = n"

fun report_state :: "report \<Rightarrow> string option" where
  "report_state (StateReport n st avg dc nc) = Some st"
| "report_state (NoDetections n) = None"

text \<open>
  Lines 54 and 74--99, given the frame's \<open>current_detection\<close>. A 2-tuple is truthy, so
  \<open>if current_detection:\<close> tests for \<open>None\<close>.
\<close>

fun stabilize :: "stabilizer \<Rightarrow> detection option \<Rightarrow> stabilizer \<times> report option" where
  "stabilize s current_detection =
     (let n = inference_count s + 1;
          h = (case current_detection of
                 None \<Rightarrow> detection_history s
               | Some d \<Rightarrow> deque_append (detection_history s) d);
          s' = s\<lparr>inference_count := n, detection_history := h\<rparr>
      in if length h \<ge> 1 \<and> n mod 5 = 0 then
           (if Some (current_state h) \<noteq> last_reported_state s \<or> n mod 30 = 0 then
              (s'\<lparr>last_reported_state := Some (current_state h)\<rparr>,
               Some (StateReport n (current_state h) (avg_conf h)
                       (drowsy_count h) (notdrowsy_count h)))
            else (s', None))
         else if length h = 0 \<and> n mod 30 = 0 then (s', Some (NoDetections n))
         else (s', None))"

definition process_frame :: "stabilizer \<Rightarrow> detection list \<Rightarrow> stabilizer \<times> report option" where
  "process_frame s boxes = stabilize s (best_detection boxes)"

definition process_frame_tflite ::
    "stabilizer \<Rightarrow> (string \<times> real \<times> 'b) list \<Rightarrow> stabilizer \<times> report option" where
  "process_frame_tflite s detections = stabilize s (best_detection_tflite detections)"

text \<open>
  The \<open>while True\<close> loop over the frames the camera delivers before the loop is left
  (a failed read or the \<open>q\<close> key): the final variables and the lines printed, in order.
\<close>

fun run :: "stabilizer \<Rightarrow> detection list list \<Rightarrow> stabilizer \<times> report list" where
  "run s [] = (s, [])"
| "run s (boxes # frames) =
     (case process_frame s boxes of
        (s', r) \<Rightarrow>
          (case run s' frames of
             (s'', rs) \<Rightarrow> (s'', (case r of None \<Rightarrow> rs | Some x \<Rightarrow> x # rs))))"

text \<open>The same loop in test\_tflite\_inference.py (lines 129--191), over frames of triples.\<close>

fun run_tflite ::
    "stabilizer \<Rightarrow> (string \<times> real \<times> 'b) list list \<Rightarrow> stabilizer \<times> report list" where
  "run_tflite s [] = (s, [])"
| "run_tflite s (detections # frames) =
     (case process_frame_tflite s detections of
        (s', r) \<Rightarrow>
          (case run_tflite s' frames of
             (s'', rs) \<Rightarrow> (s'', (case r of None \<Rightarrow> rs | Some x \<Rightarrow> x # rs))))"

section \<open>y2m: input validation and exit codes (utils.py, cli.py)\<close>








text \<open>\<open>str.lower\<close> on the ASCII letters; every other byte is kept.\<close>

definition lower_char :: "char \<Rightarrow> char" where
  "lower_char c =
     (case map_of (zip ''ABCDEFGHIJKLMNOPQRSTUVWXYZ'' ''abcdefghijklmnopqrstuvwxyz'') c of
        None \<Rightarrow> c
      | Some l \<Rightarrow> l)"

definition lower :: "string \<Rightarrow> string" where
  "lower s = map lower_char s"





definition EXIT_QUANTIZATION_ERROR :: int where
  "EXIT_QUANTIZATION_ERROR = 3"



section \<open>y2m: ModelOptimizer (optimizer.py)\<close>

text \<open>
  Regular files are a map from paths to contents; a path without a readable regular
  file (a missing path, a directory) maps to \<open>None\<close>. The calls into TensorFlow and
  pathlib are parameters: each says whether the call returns or raises. None of them
  writes a file; the only call of the module that writes is \<open>shutil.copy2\<close>.
\<close>

type_synonym files = "string \<rightharpoonup> string"

record optimizer =
  tflite_path :: string
  output_dir :: string

record dir_entry =
  entry_path :: string
  entry_name :: string
  entry_is_dir :: bool

text \<open>
  How the copy inside \<open>shutil.copy2\<close> ends: it completes; it raises before the
  destination is written (the destination cannot be opened); or it raises after the
  first \<open>k\<close> bytes are written (the disk is full, or the metadata cannot be copied
  after all bytes were written).
\<close>

datatype copy_outcome =
    Copy_completes
  | Copy_raises_before_writing
  | Copy_raises_after_writing nat

record tf_env =
  tensorflow_importable :: bool
  parent_iterdir :: "dir_entry list option"
  from_saved_model_returns :: "string \<Rightarrow> bool"
  stem :: "string \<Rightarrow> string"
  basename :: "string \<Rightarrow> string"
  joinpath :: "string \<Rightarrow> string \<Rightarrow> string"
  isdir :: "string \<Rightarrow> bool"
  interpreter_returns :: "string \<Rightarrow> bool"
  copy_ends :: copy_outcome

text \<open>\<open>sub in s\<close> on strings.\<close>

fun contains :: "string \<Rightarrow> string \<Rightarrow> bool" where
  "contains sub [] = (sub = [])"
| "contains sub (c # cs) = (take (length sub) (c # cs) = sub \<or> contains sub cs)"

text \<open>
  \<open>s.replace(old, new)\<close> for a non-empty \<open>old\<close>: matches are taken left to right and
  do not overlap; the counter is the number of characters of a match still to skip.
\<close>

fun replace_skip :: "string \<Rightarrow> string \<Rightarrow> nat \<Rightarrow> string \<Rightarrow> string" where
  "replace_skip old new k [] = []"
| "replace_skip old new (Suc k) (c # cs) = replace_skip old new k cs"
| "replace_skip old new 0 (c # cs) =
     (if take (length old) (c # cs) = old
      then new @ replace_skip old new (length old - 1) cs
      else c # replace_skip old new 0 cs)"

definition replace :: "string \<Rightarrow> string \<Rightarrow> string \<Rightarrow> string" where
  "replace old new s = replace_skip old new 0 s"

text \<open>
  \<open>_find_saved_model_dir\<close> (lines 154--161): the first directory of the parent whose
  name contains \<open>saved_model\<close>; \<open>Inl ()\<close> when \<open>iterdir\<close> raises.
\<close>

definition find_saved_model_dir :: "tf_env \<Rightarrow> unit + string option" where
  "find_saved_model_dir env =
     (case parent_iterdir env of
        None \<Rightarrow> Inl ()
      | Some items \<Rightarrow>
          Inr (map_option entry_path
                 (find (\<lambda>item. entry_is_dir item
                                 \<and> contains ''saved_model'' (lower (entry_name item))) items)))"

text \<open>Python's \<open>str\<close> of an optional path.\<close>

fun str_of :: "string option \<Rightarrow> string" where
  "str_of None = ''None''"
| "str_of (Some p) = p"

text \<open>
  The \<open>try\<close> block of \<open>quantize_int8\<close> (lines 75--87) runs to its end exactly when
  TensorFlow imports, the directory search returns and \<open>from_saved_model\<close> returns a
  converter.
\<close>

definition converter_constructed :: "tf_env \<Rightarrow> bool" where
  "converter_constructed env =
     (tensorflow_importable env \<and>
      (case find_saved_model_dir env of
         Inl u \<Rightarrow> False
       | Inr d \<Rightarrow> from_saved_model_returns env (str_of d)))"

text \<open>
  \<open>shutil.copy2(src, dst)\<close>: when \<open>dst\<close> is a directory the file is copied into it
  under the base name of \<open>src\<close>; copying a file onto itself raises
  \<open>SameFileError\<close>. The result is \<open>Inr\<close> of the files when the call returns and
  \<open>Inl\<close> of the files as they are left when it raises.
\<close>

definition copy2 :: "tf_env \<Rightarrow> string \<Rightarrow> string \<Rightarrow> files \<Rightarrow> files + files" where
  "copy2 env src dst fs =
     (let target = (if isdir env dst then joinpath env dst (basename env src) else dst)
      in case fs src of
           None \<Rightarrow> Inl fs
         | Some bytes \<Rightarrow>
             if target = src \<or> isdir env target then Inl fs
             else (case copy_ends env of
                     Copy_completes \<Rightarrow> Inr (fs(target \<mapsto> bytes))
                   | Copy_raises_before_writing \<Rightarrow> Inl fs
                   | Copy_raises_after_writing k \<Rightarrow> Inl (fs(target \<mapsto> take k bytes))))"

text \<open>
  \<open>_quantize_from_tflite\<close> (lines 96--152): the returned path and the files
  afterwards. Every exception of the block ends in \<open>return None\<close>. The value returned
  on success is \<open>output_path\<close>, not what \<open>copy2\<close> returns.
\<close>

definition quantize_from_tflite :: "tf_env \<Rightarrow> optimizer \<Rightarrow> files \<Rightarrow> string option \<times> files" where
  "quantize_from_tflite env self fs =
     (if \<not> tensorflow_importable env then (None, fs)
      else (case fs (tflite_path self) of
              None \<Rightarrow> (None, fs)
            | Some model_content \<Rightarrow>
                (let output_name =
                       replace ''_float32'' [] (stem env (tflite_path self)) @ ''_int8.tflite'';
                     output_path = joinpath env (output_dir self) output_name
                 in if \<not> interpreter_returns env model_content then (None, fs)
                    else (case copy2 env (tflite_path self) output_path fs of
                            Inl fs' \<Rightarrow> (None, fs')
                          | Inr fs' \<Rightarrow> (Some output_path, fs')))))"

text \<open>
  \<open>quantize_int8\<close> (lines 60--94): the \<open>try\<close> block has no \<open>return\<close>, so when it
  runs to its end the function returns \<open>None\<close>; any exception goes to the fallback.
\<close>

definition quantize_int8 :: "tf_env \<Rightarrow> optimizer \<Rightarrow> files \<Rightarrow> string option \<times> files" where
  "quantize_int8 env self fs =
     (if converter_constructed env then (None, fs)
      else quantize_from_tflite env self fs)"

section \<open>The reducer\<close>

lemma best_loop_snoc: "best_loop cur (ds @ [d]) = best_step (best_loop cur ds) d"
  by (induction ds arbitrary: cur) simp_all

lemma best_detection_snoc:
  "best_detection (ds @ [d]) = best_step (best_detection ds) d"
  by (simp add: best_detection_def best_loop_snoc)

lemma best_detection_Nil: "best_detection [] = None"
  by (simp add: best_detection_def)

lemma best_detection_first_max:
  "ds \<noteq> [] \<Longrightarrow>
     \<exists>i<length ds. best_detection ds = Some (ds ! i)
        \<and> (\<forall>j<i. snd (ds ! j) < snd (ds ! i))
        \<and> (\<forall>j<length ds. i < j \<longrightarrow> snd (ds ! j) \<le> snd (ds ! i))"
proof (induction ds rule: rev_induct)
  case Nil
  then show ?case by simp
next
  case (snoc d ds)
  obtain l c where d: "d = (l, c)" by (cases d)
  show ?case
  proof (cases "ds = []")
    case True
    then show ?thesis by (simp add: best_detection_def d)
  next
    case False
    with snoc.IH obtain i where i: "i < length ds"
      and bi: "best_detection ds = Some (ds ! i)"
      and before: "\<forall>j<i. snd (ds ! j) < snd (ds ! i)"
      and after: "\<forall>j<length ds. i < j \<longrightarrow> snd (ds ! j) \<le> snd (ds ! i)"
      by blast
    have all_le: "snd (ds ! j) \<le> snd (ds ! i)" if "j < length ds" for j
    proof -
      consider "j < i" | "j = i" | "i < j" by linarith
      then show ?thesis using before after that by cases auto
    qed
    show ?thesis
    proof (cases "c > snd (ds ! i)")
      case True
      have "best_detection (ds @ [d]) = Some ((ds @ [d]) ! length ds)"
        using True by (simp add: best_detection_snoc bi d)
      moreover have "\<forall>j<length ds. snd ((ds @ [d]) ! j) < snd ((ds @ [d]) ! length ds)"
      proof (intro allI impI)
        fix j assume j: "j < length ds"
        from all_le [OF j] True have "snd (ds ! j) < c" by linarith
        then show "snd ((ds @ [d]) ! j) < snd ((ds @ [d]) ! length ds)"
          using j by (simp add: nth_append d)
      qed
      ultimately show ?thesis
        by (intro exI[of _ "length ds"]) auto
    next
      case False
      have "best_detection (ds @ [d]) = Some ((ds @ [d]) ! i)"
        using False i by (simp add: best_detection_snoc bi d nth_append)
      moreover have "\<forall>j<i. snd ((ds @ [d]) ! j) < snd ((ds @ [d]) ! i)"
        using before i by (auto simp: nth_append)
      moreover have "\<forall>j<length (ds @ [d]). i < j \<longrightarrow> snd ((ds @ [d]) ! j) \<le> snd ((ds @ [d]) ! i)"
      proof (intro allI impI)
        fix j assume "j < length (ds @ [d])" "i < j"
        then consider "j < length ds" | "j = length ds" by fastforce
        then show "snd ((ds @ [d]) ! j) \<le> snd ((ds @ [d]) ! i)"
        proof cases
          case 1
          then show ?thesis using after i \<open>i < j\<close> by (simp add: nth_append)
        next
          case 2
          then show ?thesis using False i by (simp add: nth_append d)
        qed
      qed
      ultimately show ?thesis using i
        by (intro exI[of _ i]) auto
    qed
  qed
qed

lemma best_loop_tflite_eq:
  "best_loop_tflite cur dets = best_loop cur (map (\<lambda>(l, c, b). (l, c)) dets)"
proof (induction dets arbitrary: cur)
  case Nil
  show ?case by simp
next
  case (Cons det dets)
  obtain l c b where det: "det = (l, c, b)" by (cases det)
  have "best_step_tflite cur det = best_step cur (l, c)"
    by (cases cur) (simp_all add: det)
  then show ?case by (simp add: Cons.IH det)
qed

lemma best_detection_tflite_eq:
  "best_detection_tflite dets = best_detection (map (\<lambda>(l, c, b). (l, c)) dets)"
  by (simp add: best_detection_tflite_def best_detection_def best_loop_tflite_eq)

text \<open>
  Claim C5. The reducer returns nothing for a frame without raw detections.
  Otherwise it returns the detection at the first position \<open>i\<close> of the scan whose
  confidence is strictly greater than that of every earlier detection and is not
  exceeded by any later one; so a later detection of equal confidence does not
  replace the retained one. The TFLite loop's reducer is the same function on the
  triples with the bounding box dropped.
\<close>

theorem best_detection_spec:
  "best_detection [] = None
   \<and> (ds \<noteq> [] \<longrightarrow>
        (\<exists>i<length ds. best_detection ds = Some (ds ! i)
           \<and> (\<forall>j<i. snd (ds ! j) < snd (ds ! i))
           \<and> (\<forall>j<length ds. i < j \<longrightarrow> snd (ds ! j) \<le> snd (ds ! i))))
   \<and> best_detection_tflite ts = best_detection (map (\<lambda>(l, c, b). (l, c)) ts)"
  using best_detection_first_max [of ds] best_detection_tflite_eq [of ts]
  by (simp add: best_detection_Nil)

theorem best_detection_spec_witness:
  "[(''drowsy'', 1/2), (''notdrowsy'', 9/10), (''drowsy'', 9/10)] \<noteq> ([] :: detection list)
   \<and> best_detection [(''drowsy'', 1/2), (''notdrowsy'', 9/10), (''drowsy'', 9/10)]
       = Some (''notdrowsy'', 9/10)
   \<and> best_detection_tflite [(''drowsy'', 1/2, ()), (''drowsy'', 1/2, ())]
       = Some (''drowsy'', 1/2)"
  using best_detection_spec
    [of "[(''drowsy'', 1/2), (''notdrowsy'', 9/10), (''drowsy'', 9/10)]"
        "[(''drowsy'', 1/2, ()), (''drowsy'', 1/2, ())]"]
  by (simp add: best_detection_def)

section \<open>One iteration: when a line is printed\<close>

declare stabilize.simps [simp del]

lemma stabilize_count: "inference_count (fst (stabilize s cur)) = inference_count s + 1"
  by (simp add: stabilize.simps Let_def)

lemma stabilize_history:
  "detection_history (fst (stabilize s cur)) =
     (case cur of None \<Rightarrow> detection_history s | Some d \<Rightarrow> deque_append (detection_history s) d)"
  by (simp add: stabilize.simps Let_def)

text \<open>
  Claim C1. After the window update and the increment of the counter, a frame
  prints a line if and only if either (a) the window is non-empty, the counter is a
  multiple of 5, and the freshly computed state differs from \<open>last_reported_state\<close>
  or the counter is a multiple of 30; or (b) the window is empty and the counter is a
  multiple of 30. In case (a) the line is the state line and \<open>last_reported_state\<close>
  becomes the computed state; in case (b) the line is "No detections in recent frames"
  and \<open>last_reported_state\<close> is unchanged; a frame that prints nothing leaves
  \<open>last_reported_state\<close> unchanged.
\<close>

theorem report_emission:
  assumes "stabilize s cur = (s', r)"
  shows "inference_count s' = inference_count s + 1
    \<and> detection_history s' =
        (case cur of None \<Rightarrow> detection_history s
                   | Some d \<Rightarrow> deque_append (detection_history s) d)
    \<and> (r \<noteq> None \<longleftrightarrow>
         (detection_history s' \<noteq> [] \<and> 5 dvd inference_count s'
            \<and> (Some (current_state (detection_history s')) \<noteq> last_reported_state s
                 \<or> 30 dvd inference_count s'))
         \<or> (detection_history s' = [] \<and> 30 dvd inference_count s'))
    \<and> (detection_history s' \<noteq> [] \<and> 5 dvd inference_count s'
         \<and> (Some (current_state (detection_history s')) \<noteq> last_reported_state s
              \<or> 30 dvd inference_count s')
        \<longrightarrow> r = Some (StateReport (inference_count s') (current_state (detection_history s'))
                        (avg_conf (detection_history s')) (drowsy_count (detection_history s'))
                        (notdrowsy_count (detection_history s')))
            \<and> last_reported_state s' = Some (current_state (detection_history s')))
    \<and> (detection_history s' = [] \<and> 30 dvd inference_count s'
        \<longrightarrow> r = Some (NoDetections (inference_count s'))
            \<and> last_reported_state s' = last_reported_state s)
    \<and> (r = None \<longrightarrow> last_reported_state s' = last_reported_state s)"
proof -
  let ?n = "inference_count s + 1"
  let ?h = "case cur of None \<Rightarrow> detection_history s
                      | Some d \<Rightarrow> deque_append (detection_history s) d"
  have n: "inference_count s' = ?n"
    using stabilize_count [of s cur] assms by simp
  have h: "detection_history s' = ?h"
    using stabilize_history [of s cur] assms by simp
  have len: "(1 \<le> length ?h) = (?h \<noteq> [])" "(length ?h = 0) = (?h = [])"
    by (cases ?h; simp)+
  have m5: "(?n mod 5 = 0) = (5 dvd ?n)" and m30: "(?n mod 30 = 0) = (30 dvd ?n)"
    by (simp_all add: dvd_eq_mod_eq_0)
  show ?thesis
    unfolding n h using assms
    unfolding stabilize.simps Let_def len m5 m30
    by (auto split: if_splits)
qed

theorem report_emission_witness:
  "stabilize \<lparr>inference_count = 4, detection_history = [(''drowsy'', 9/10)],
              last_reported_state = None\<rparr> None
     = (\<lparr>inference_count = 5, detection_history = [(''drowsy'', 9/10)],
          last_reported_state = Some ''DROWSY''\<rparr>,
        Some (StateReport 5 ''DROWSY'' (9/10) 1 0))
   \<and> (5::nat) dvd 5 \<and> Some ''DROWSY'' \<noteq> (None :: string option)"
proof -
  have h: "stabilize \<lparr>inference_count = 4, detection_history = [(''drowsy'', 9/10)],
              last_reported_state = None\<rparr> None
     = (\<lparr>inference_count = 5, detection_history = [(''drowsy'', 9/10)],
          last_reported_state = Some ''DROWSY''\<rparr>,
        Some (StateReport 5 ''DROWSY'' (9/10) 1 0))"
    by (simp add: stabilize.simps current_state_def drowsy_count_def notdrowsy_count_def
        avg_conf_def)
  from report_emission [OF h] h show ?thesis by simp
qed

section \<open>The rolling state\<close>

lemma drowsy_count_length:
  "drowsy_count h = length (filter (\<lambda>d. fst d = ''drowsy'') h)"
  unfolding drowsy_count_def by (induction h) simp_all

lemma notdrowsy_count_length:
  "notdrowsy_count h = length (filter (\<lambda>d. fst d = ''notdrowsy'') h)"
  unfolding notdrowsy_count_def by (induction h) simp_all

lemma sum_list_nth_real: "sum_list (xs :: real list) = (\<Sum>i<length xs. xs ! i)"
  by (simp add: sum_list_sum_nth atLeast0LessThan)

text \<open>
  Claim C3. On a non-empty window the state is DROWSY when the entries labelled
  \<open>drowsy\<close> strictly outnumber those labelled \<open>notdrowsy\<close>, ALERT in the reverse
  case and UNCERTAIN when the two counts are equal. The average confidence is the
  arithmetic mean over all entries of the window; an entry with any other label
  changes neither count and enters the mean. The window
  [(drowsy,0.9),(drowsy,0.8),(notdrowsy,0.7),(drowsy,0.6),(notdrowsy,0.95)] has
  counts 3 and 2, state DROWSY and average confidence 0.79.
\<close>

theorem classifier_majority:
  assumes "h \<noteq> []"
  shows "drowsy_count h = length (filter (\<lambda>d. fst d = ''drowsy'') h)
    \<and> notdrowsy_count h = length (filter (\<lambda>d. fst d = ''notdrowsy'') h)
    \<and> (length (filter (\<lambda>d. fst d = ''drowsy'') h)
           > length (filter (\<lambda>d. fst d = ''notdrowsy'') h)
         \<longrightarrow> current_state h = ''DROWSY'')
    \<and> (length (filter (\<lambda>d. fst d = ''notdrowsy'') h)
           > length (filter (\<lambda>d. fst d = ''drowsy'') h)
         \<longrightarrow> current_state h = ''ALERT'')
    \<and> (length (filter (\<lambda>d. fst d = ''drowsy'') h)
           = length (filter (\<lambda>d. fst d = ''notdrowsy'') h)
         \<longrightarrow> current_state h = ''UNCERTAIN'')
    \<and> avg_conf h = (\<Sum>i<length h. snd (h ! i)) / real (length h)
    \<and> (l \<noteq> ''drowsy'' \<and> l \<noteq> ''notdrowsy'' \<longrightarrow>
          drowsy_count (h @ [(l, c)]) = drowsy_count h
        \<and> notdrowsy_count (h @ [(l, c)]) = notdrowsy_count h
        \<and> avg_conf (h @ [(l, c)]) = ((\<Sum>i<length h. snd (h ! i)) + c) / real (length h + 1))
    \<and> drowsy_count [(''drowsy'', 0.9), (''drowsy'', 0.8), (''notdrowsy'', 0.7),
                     (''drowsy'', 0.6), (''notdrowsy'', 0.95)] = 3
    \<and> notdrowsy_count [(''drowsy'', 0.9), (''drowsy'', 0.8), (''notdrowsy'', 0.7),
                        (''drowsy'', 0.6), (''notdrowsy'', 0.95)] = 2
    \<and> current_state [(''drowsy'', 0.9), (''drowsy'', 0.8), (''notdrowsy'', 0.7),
                      (''drowsy'', 0.6), (''notdrowsy'', 0.95)] = ''DROWSY''
    \<and> avg_conf [(''drowsy'', 0.9), (''drowsy'', 0.8), (''notdrowsy'', 0.7),
                 (''drowsy'', 0.6), (''notdrowsy'', 0.95)] = 0.79"
proof -
  have sum_h: "sum_list (map snd h) = (\<Sum>i<length h. snd (h ! i))"
    using sum_list_nth_real [of "map snd h"] by simp
  have a: "avg_conf h = (\<Sum>i<length h. snd (h ! i)) / real (length h)"
    by (simp add: avg_conf_def sum_h)
  have b: "avg_conf (h @ [(l, c)]) = ((\<Sum>i<length h. snd (h ! i)) + c) / real (length h + 1)"
    by (simp add: avg_conf_def sum_h add.commute)
  have st: "(drowsy_count h > notdrowsy_count h \<longrightarrow> current_state h = ''DROWSY'')
    \<and> (notdrowsy_count h > drowsy_count h \<longrightarrow> current_state h = ''ALERT'')
    \<and> (drowsy_count h = notdrowsy_count h \<longrightarrow> current_state h = ''UNCERTAIN'')"
    by (simp add: current_state_def)
  have other: "l \<noteq> ''drowsy'' \<and> l \<noteq> ''notdrowsy'' \<longrightarrow>
          drowsy_count (h @ [(l, c)]) = drowsy_count h
        \<and> notdrowsy_count (h @ [(l, c)]) = notdrowsy_count h"
    by (simp add: drowsy_count_def notdrowsy_count_def)
  have ex: "drowsy_count [(''drowsy'', 0.9), (''drowsy'', 0.8), (''notdrowsy'', 0.7),
                     (''drowsy'', 0.6), (''notdrowsy'', 0.95)] = 3"
    "notdrowsy_count [(''drowsy'', 0.9), (''drowsy'', 0.8), (''notdrowsy'', 0.7),
                        (''drowsy'', 0.6), (''notdrowsy'', 0.95)] = 2"
    "current_state [(''drowsy'', 0.9), (''drowsy'', 0.8), (''notdrowsy'', 0.7),
                      (''drowsy'', 0.6), (''notdrowsy'', 0.95)] = ''DROWSY''"
    "avg_conf [(''drowsy'', 0.9), (''drowsy'', 0.8), (''notdrowsy'', 0.7),
                 (''drowsy'', 0.6), (''notdrowsy'', 0.95)] = 0.79"
    by (simp_all add: drowsy_count_def notdrowsy_count_def current_state_def avg_conf_def)
  show ?thesis
    using a b st other ex
    unfolding drowsy_count_length [of h] notdrowsy_count_length [of h]
    by blast
qed

theorem classifier_majority_witness:
  "[(''drowsy'', 1/2), (''notdrowsy'', 1/2)] \<noteq> ([] :: detection list)
   \<and> current_state [(''drowsy'', 1/2), (''notdrowsy'', 1/2)] = ''UNCERTAIN''
   \<and> current_state [(''drowsy'', 1/2), (''notdrowsy'', 1/2), (''phone'', 1)] = ''UNCERTAIN''
   \<and> avg_conf [(''drowsy'', 1/2), (''notdrowsy'', 1/2), (''phone'', 1)] = 2/3"
proof -
  have ne: "[(''drowsy'', 1/2), (''notdrowsy'', 1/2)] \<noteq> ([] :: detection list)" by simp
  from classifier_majority [OF ne, of "''phone''" 1] show ?thesis
    by (simp add: drowsy_count_def notdrowsy_count_def current_state_def)
qed

section \<open>The history window\<close>

lemma best_step_Some: "best_step cur d \<noteq> None"
  by (cases cur; cases d) simp_all

lemma best_loop_Some: "best_loop (Some c) ds \<noteq> None"
proof (induction ds arbitrary: c)
  case Nil
  show ?case by simp
next
  case (Cons d ds)
  obtain c' where "best_step (Some c) d = Some c'"
    using best_step_Some [of "Some c" d] by blast
  then show ?case using Cons.IH [of c'] by simp
qed

lemma best_detection_None_iff: "best_detection boxes = None \<longleftrightarrow> boxes = []"
proof (cases boxes)
  case Nil
  then show ?thesis by (simp add: best_detection_def)
next
  case (Cons d ds)
  obtain c' where "best_step None d = Some c'"
    using best_step_Some [of None d] by blast
  then show ?thesis using best_loop_Some [of c' ds] by (simp add: best_detection_def Cons)
qed

lemma deque_append_not_Nil: "deque_append q x \<noteq> []"
  by (cases q) (auto simp: deque_append_def maxlen_def Let_def)

lemma deque_append_last5:
  "length q \<le> 5 \<Longrightarrow> deque_append q x = drop (length (q @ [x]) - 5) (q @ [x])"
  by (cases q) (auto simp: deque_append_def maxlen_def Let_def drop_Cons' le_Suc_eq)

lemma deque_append_fifo:
  "length q \<le> 5 \<Longrightarrow> deque_append q x = (if length q = 5 then tl q @ [x] else q @ [x])"
  by (cases q) (auto simp: deque_append_def maxlen_def Let_def)

lemma last5_append:
  "drop (length (drop (length xs - 5) xs @ ys) - 5) (drop (length xs - (5::nat)) xs @ ys)
     = drop (length (xs @ ys) - 5) (xs @ ys)"
  by (cases "length xs \<le> 5") (auto simp: add.commute)

lemma process_frame_count:
  "inference_count (fst (process_frame s boxes)) = inference_count s + 1"
  by (simp add: process_frame_def stabilize_count)

lemma process_frame_history:
  "detection_history (fst (process_frame s boxes)) =
     (case best_detection boxes of None \<Rightarrow> detection_history s
        | Some d \<Rightarrow> deque_append (detection_history s) d)"
  by (simp add: process_frame_def stabilize_history)

lemma run_Cons_fst: "fst (run s (boxes # frames)) = fst (run (fst (process_frame s boxes)) frames)"
  by (simp split: prod.splits)

lemma run_Cons_snd:
  "snd (run s (boxes # frames)) =
     (case snd (process_frame s boxes) of None \<Rightarrow> [] | Some x \<Rightarrow> [x])
       @ snd (run (fst (process_frame s boxes)) frames)"
  by (simp split: prod.splits option.splits)

lemma run_append_fst: "fst (run s (xs @ ys)) = fst (run (fst (run s xs)) ys)"
  by (induction xs arbitrary: s) (simp_all add: run_Cons_fst del: run.simps(2))

lemma run_append_snd:
  "snd (run s (xs @ ys)) = snd (run s xs) @ snd (run (fst (run s xs)) ys)"
  by (induction xs arbitrary: s) (simp_all add: run_Cons_fst run_Cons_snd del: run.simps(2))

lemma run_count: "inference_count (fst (run s frames)) = inference_count s + length frames"
  by (induction frames arbitrary: s)
    (simp_all add: run_Cons_fst process_frame_count del: run.simps(2))

lemma run_history:
  "length (detection_history s) \<le> 5 \<Longrightarrow>
     detection_history (fst (run s frames)) =
       drop (length (detection_history s @ List.map_filter best_detection frames) - 5)
         (detection_history s @ List.map_filter best_detection frames)"
proof (induction frames arbitrary: s)
  case Nil
  then show ?case by (simp add: List.map_filter_simps)
next
  case (Cons boxes frames)
  let ?s' = "fst (process_frame s boxes)"
  show ?case
  proof (cases "best_detection boxes")
    case None
    then have h: "detection_history ?s' = detection_history s"
      by (simp add: process_frame_history)
    with Cons.prems have "length (detection_history ?s') \<le> 5" by simp
    from Cons.IH [OF this] show ?thesis
      by (simp add: run_Cons_fst h None List.map_filter_simps del: run.simps(2))
  next
    case (Some d)
    then have h: "detection_history ?s' =
        drop (length (detection_history s @ [d]) - 5) (detection_history s @ [d])"
      using Cons.prems by (simp add: process_frame_history deque_append_last5)
    then have "length (detection_history ?s') \<le> 5" by simp
    from Cons.IH [OF this] show ?thesis
      unfolding run_Cons_fst h
      using last5_append [of "detection_history s @ [d]" "List.map_filter best_detection frames"]
      by (simp add: Some List.map_filter_simps)
  qed
qed

lemma run_history_length:
  "length (detection_history s) \<le> 5 \<Longrightarrow> length (detection_history (fst (run s frames))) \<le> 5"
  by (simp add: run_history)

lemma map_filter_all_Some:
  "\<forall>boxes\<in>set frames. boxes \<noteq> [] \<Longrightarrow>
     length (List.map_filter best_detection frames) = length frames"
  by (induction frames) (auto simp: List.map_filter_simps best_detection_None_iff split: option.splits)

lemma process_frame_tflite_eq:
  "process_frame_tflite s dets = process_frame s (map (\<lambda>(l, c, b). (l, c)) dets)"
  by (simp add: process_frame_tflite_def process_frame_def best_detection_tflite_eq)

section \<open>Lines printed along a run\<close>

lemma len_conv: "(1 \<le> length h) = (h \<noteq> [])" "(length h = 0) = (h = [])"
  by (cases h; simp)+


lemma stabilize_snd:
  "snd (stabilize s cur) =
     (if detection_history (fst (stabilize s cur)) \<noteq> [] \<and> 5 dvd (inference_count s + 1) then
        (if Some (current_state (detection_history (fst (stabilize s cur)))) \<noteq> last_reported_state s
            \<or> 30 dvd (inference_count s + 1)
         then Some (StateReport (inference_count s + 1)
                 (current_state (detection_history (fst (stabilize s cur))))
                 (avg_conf (detection_history (fst (stabilize s cur))))
                 (drowsy_count (detection_history (fst (stabilize s cur))))
                 (notdrowsy_count (detection_history (fst (stabilize s cur)))))
         else None)
      else if detection_history (fst (stabilize s cur)) = [] \<and> 30 dvd (inference_count s + 1)
      then Some (NoDetections (inference_count s + 1))
      else None)"
  unfolding stabilize_history
  by (simp add: stabilize.simps Let_def Suc_le_eq dvd_eq_mod_eq_0)

lemma stabilize_last:
  "last_reported_state (fst (stabilize s cur)) =
     (if detection_history (fst (stabilize s cur)) \<noteq> [] \<and> 5 dvd (inference_count s + 1)
         \<and> (Some (current_state (detection_history (fst (stabilize s cur)))) \<noteq> last_reported_state s
            \<or> 30 dvd (inference_count s + 1))
      then Some (current_state (detection_history (fst (stabilize s cur))))
      else last_reported_state s)"
  unfolding stabilize_history
  by (simp add: stabilize.simps Let_def Suc_le_eq dvd_eq_mod_eq_0)



lemma stabilize_NoDetections:
  assumes "snd (stabilize s cur) = Some (NoDetections n)"
  shows "n = inference_count s + 1 \<and> cur = None \<and> detection_history s = []"
proof -
  from assms have n: "n = inference_count s + 1"
    and h: "detection_history (fst (stabilize s cur)) = []"
    unfolding stabilize_snd by (auto split: if_splits)
  from h have "cur = None \<and> detection_history s = []"
    unfolding stabilize_history by (cases cur) (simp_all add: deque_append_not_Nil)
  with n show ?thesis by simp
qed

lemma stabilize_report_state:
  assumes "snd (stabilize s cur) = Some r"
    and "detection_history (fst (stabilize s cur)) \<noteq> []"
  shows "report_state r = Some (current_state (detection_history (fst (stabilize s cur))))"
  using assms unfolding stabilize_snd by (auto split: if_splits)

lemma stabilize_change_reported:
  assumes "5 dvd (inference_count s + 1)"
    and "detection_history (fst (stabilize s cur)) \<noteq> []"
    and "Some (current_state (detection_history (fst (stabilize s cur)))) \<noteq> last_reported_state s"
  shows "\<exists>r. snd (stabilize s cur) = Some r
        \<and> report_state r = Some (current_state (detection_history (fst (stabilize s cur))))
        \<and> report_frame r = inference_count s + 1"
  using assms unfolding stabilize_snd by simp


lemma run_nonempty:
  "detection_history s \<noteq> [] \<Longrightarrow> detection_history (fst (run s frames)) \<noteq> []"
proof (induction frames arbitrary: s)
  case Nil
  then show ?case by simp
next
  case (Cons boxes frames)
  have "detection_history (fst (process_frame s boxes)) \<noteq> []"
    using Cons.prems
    by (simp add: process_frame_history deque_append_not_Nil split: option.splits)
  from Cons.IH [OF this] show ?case by (simp add: run_Cons_fst del: run.simps(2))
qed

lemma run_NoDetections:
  "NoDetections n \<in> set (snd (run s frames)) \<Longrightarrow>
     inference_count s < n \<and> n \<le> inference_count s + length frames
     \<and> detection_history s = []
     \<and> (\<forall>boxes\<in>set (take (n - inference_count s) frames). boxes = [])"
proof (induction frames arbitrary: s)
  case Nil
  then show ?case by simp
next
  case (Cons boxes frames)
  let ?s' = "fst (process_frame s boxes)"
  from Cons.prems consider
      (now) "snd (process_frame s boxes) = Some (NoDetections n)"
    | (later) "NoDetections n \<in> set (snd (run ?s' frames))"
    by (cases "snd (process_frame s boxes)")
      (auto simp: run_Cons_snd simp del: run.simps(2))
  then show ?case
  proof cases
    case now
    then have "n = inference_count s + 1 \<and> best_detection boxes = None \<and> detection_history s = []"
      using stabilize_NoDetections [of s "best_detection boxes" n]
      by (simp add: process_frame_def)
    then show ?thesis by (simp add: best_detection_None_iff)
  next
    case later
    from Cons.IH [OF later]
    have c: "inference_count s + 1 < n" "n \<le> inference_count s + 1 + length frames"
      and h: "detection_history ?s' = []"
      and e: "\<forall>boxes\<in>set (take (n - (inference_count s + 1)) frames). boxes = []"
      by (simp_all add: process_frame_count)
    from h have b: "best_detection boxes = None \<and> detection_history s = []"
      by (cases "best_detection boxes")
        (simp_all add: process_frame_history deque_append_not_Nil)
    have "take (n - inference_count s) (boxes # frames)
        = boxes # take (n - (inference_count s + 1)) frames"
      using c by (simp add: take_Cons')
    then show ?thesis using c b e by (simp add: best_detection_None_iff)
  qed
qed

lemma process_empty_frame_history:
  "detection_history (fst (process_frame s [])) = detection_history s"
  by (simp add: process_frame_history best_detection_Nil)

lemma run_empty_frames_history:
  "detection_history (fst (run s (replicate k []))) = detection_history s"
  by (induction k arbitrary: s)
    (simp_all add: run_Cons_fst process_empty_frame_history del: run.simps(2))

lemma run_empty_frames_reports:
  "detection_history s \<noteq> [] \<Longrightarrow>
     \<forall>r\<in>set (snd (run s (replicate k []))). report_state r = Some (current_state (detection_history s))"
proof (induction k arbitrary: s)
  case 0
  show ?case by simp
next
  case (Suc k)
  let ?s' = "fst (process_frame s [])"
  have h: "detection_history ?s' = detection_history s"
    by (rule process_empty_frame_history)
  have now: "snd (process_frame s []) = Some r \<Longrightarrow>
      report_state r = Some (current_state (detection_history s))" for r
    using stabilize_report_state [of s None r] Suc.prems h
    by (simp add: process_frame_def best_detection_Nil)
  from Suc.IH [of ?s'] Suc.prems h
  have "\<forall>r\<in>set (snd (run ?s' (replicate k []))).
      report_state r = Some (current_state (detection_history s))" by simp
  then show ?case using now
    by (cases "snd (process_frame s [])")
      (auto simp: run_Cons_snd simp del: run.simps(2))
qed

lemma replicate_numeral: "replicate (numeral k) x = x # replicate (pred_numeral k) x"
  by (simp add: numeral_eq_Suc)

lemmas run_eval = process_frame_def stabilize.simps deque_append_def maxlen_def
  best_detection_def current_state_def drowsy_count_def notdrowsy_count_def avg_conf_def
  init_def Let_def replicate_numeral

text \<open>
  Claim C7, amended. A frame without detection leaves the window unchanged and
  increments the counter by exactly one. It changes \<open>last_reported_state\<close> only
  when it prints a state line: the counter is then a multiple of 5, the window is
  non-empty, and the new value is the state of the unchanged window. The TFLite loop
  does the same.
\<close>

theorem empty_frame_effect:
  assumes "process_frame s [] = (s', r)"
  shows "detection_history s' = detection_history s
    \<and> inference_count s' = inference_count s + 1
    \<and> (last_reported_state s' \<noteq> last_reported_state s \<longrightarrow>
         detection_history s \<noteq> [] \<and> 5 dvd inference_count s'
         \<and> r = Some (StateReport (inference_count s') (current_state (detection_history s))
                  (avg_conf (detection_history s)) (drowsy_count (detection_history s))
                  (notdrowsy_count (detection_history s)))
         \<and> last_reported_state s' = Some (current_state (detection_history s)))
    \<and> process_frame_tflite s [] = (s', r)"
proof -
  have st: "stabilize s None = (s', r)"
    using assms by (simp add: process_frame_def best_detection_Nil)
  have h: "detection_history s' = detection_history s"
    using stabilize_history [of s None] st by simp
  have n: "inference_count s' = inference_count s + 1"
    using stabilize_count [of s None] st by simp
  have l: "last_reported_state s' \<noteq> last_reported_state s \<longrightarrow>
         detection_history s \<noteq> [] \<and> 5 dvd inference_count s'
         \<and> r = Some (StateReport (inference_count s') (current_state (detection_history s))
                  (avg_conf (detection_history s)) (drowsy_count (detection_history s))
                  (notdrowsy_count (detection_history s)))
         \<and> last_reported_state s' = Some (current_state (detection_history s))"
    using stabilize_last [of s None] stabilize_snd [of s None]
    unfolding st fst_conv snd_conv h n
    by (auto split: if_splits)
  have t: "process_frame_tflite s [] = (s', r)"
    using assms by (simp add: process_frame_tflite_eq)
  from h n l t show ?thesis by blast
qed

theorem empty_frame_effect_witness:
  "process_frame \<lparr>inference_count = 4, detection_history = [(''drowsy'', 9/10)],
              last_reported_state = None\<rparr> []
     = (\<lparr>inference_count = 5, detection_history = [(''drowsy'', 9/10)],
          last_reported_state = Some ''DROWSY''\<rparr>,
        Some (StateReport 5 ''DROWSY'' (9/10) 1 0))
   \<and> (5::nat) dvd 5"
proof -
  have h: "process_frame \<lparr>inference_count = 4, detection_history = [(''drowsy'', 9/10)],
              last_reported_state = None\<rparr> []
     = (\<lparr>inference_count = 5, detection_history = [(''drowsy'', 9/10)],
          last_reported_state = Some ''DROWSY''\<rparr>,
        Some (StateReport 5 ''DROWSY'' (9/10) 1 0))"
    by (simp add: run_eval)
  from empty_frame_effect [OF h] h show ?thesis by simp
qed

text \<open>
  Claim C7 as stated fails: after one \<open>drowsy\<close> frame and three frames without
  detection, the fifth frame, again without detection, changes
  \<open>last_reported_state\<close> from \<open>None\<close> to DROWSY, and 5 is not a heartbeat frame
  (a multiple of 30).
\<close>

theorem empty_frame_changes_last_reported_state:
  "last_reported_state (fst (run init [[(''drowsy'', 9/10)], [], [], []])) = None
   \<and> inference_count (fst (run init [[(''drowsy'', 9/10)], [], [], []])) = 4
   \<and> last_reported_state
        (fst (process_frame (fst (run init [[(''drowsy'', 9/10)], [], [], []])) []))
       = Some ''DROWSY''
   \<and> inference_count
        (fst (process_frame (fst (run init [[(''drowsy'', 9/10)], [], [], []])) [])) = 5
   \<and> \<not> 30 dvd (5::nat)"
  by (simp add: run_eval)

text \<open>
  Claim C2, amended. On the stream of 15 frames \<open>(drowsy, 0.9)\<close> followed by 15
  frames \<open>(notdrowsy, 0.9)\<close> the loop prints exactly three lines: DROWSY at frame 5,
  ALERT at frame 20 and ALERT at frame 30.
\<close>

theorem webcam_30_frames_reports:
  "snd (run init (replicate 15 [(''drowsy'', 9/10)] @ replicate 15 [(''notdrowsy'', 9/10)]))
     = [StateReport 5 ''DROWSY'' (9/10) 5 0,
        StateReport 20 ''ALERT'' (9/10) 0 5,
        StateReport 30 ''ALERT'' (9/10) 0 5]"
  by (simp add: run_eval)

text \<open>
  Claim C2 as stated fails: the frames at which a line is printed are not
  5, 10, 15, 20, 30. At frames 10 and 15 the state is still DROWSY, as last reported,
  and no heartbeat is due.
\<close>

theorem webcam_30_frames_no_report_at_10_15:
  "map report_frame
     (snd (run init (replicate 15 [(''drowsy'', 9/10)] @ replicate 15 [(''notdrowsy'', 9/10)])))
     \<noteq> [5, 10, 15, 20, 30]"
  by (simp add: run_eval)

section \<open>The window in both loops\<close>

lemma run_tflite_eq:
  "run_tflite s frames = run s (map (map (\<lambda>(l, c, b). (l, c))) frames)"
  by (induction frames arbitrary: s) (simp_all add: process_frame_tflite_eq)

lemma best_detection_tflite_None_iff: "best_detection_tflite dets = None \<longleftrightarrow> dets = []"
  by (simp add: best_detection_tflite_eq best_detection_None_iff)

lemma map_filter_tflite:
  "List.map_filter best_detection
       (map (map (\<lambda>(l, c, b). (l, c))) (frames :: (string \<times> real \<times> 'b) list list))
     = List.map_filter best_detection_tflite frames"
  by (simp add: List.map_filter_def filter_map comp_def best_detection_tflite_eq)

lemma process_frame_fifo:
  assumes "length (detection_history s) \<le> 5" and "boxes \<noteq> []"
  shows "\<exists>d. best_detection boxes = Some d
             \<and> detection_history (fst (process_frame s boxes)) =
                 (if length (detection_history s) = 5 then tl (detection_history s) @ [d]
                  else detection_history s @ [d])"
proof -
  from assms(2) obtain d where d: "best_detection boxes = Some d"
    using best_detection_None_iff [of boxes] by auto
  have "detection_history (fst (process_frame s boxes)) = deque_append (detection_history s) d"
    by (simp add: process_frame_history d)
  with d show ?thesis
    using deque_append_fifo [OF assms(1), of d] by simp
qed

lemma run_last5:
  assumes "length (detection_history s) \<le> 5"
    and "5 \<le> length recent" and "\<forall>boxes\<in>set recent. boxes \<noteq> []"
  shows "length (List.map_filter best_detection recent) = length recent
        \<and> detection_history (fst (run s recent)) =
            drop (length recent - 5) (List.map_filter best_detection recent)"
proof -
  have len: "length (List.map_filter best_detection recent) = length recent"
    using assms(3) by (simp add: map_filter_all_Some)
  have "detection_history (fst (run s recent)) =
       drop (length (detection_history s @ List.map_filter best_detection recent) - 5)
         (detection_history s @ List.map_filter best_detection recent)"
    using assms(1) by (rule run_history)
  also have "\<dots> = drop (length recent - 5) (List.map_filter best_detection recent)"
  proof -
    from assms(2) have "length (detection_history s) + length recent - 5
          = length (detection_history s) + (length recent - 5)" by simp
    then show ?thesis by (simp add: len)
  qed
  finally show ?thesis using len by simp
qed

lemma run_init_history:
  "detection_history (fst (run init frames)) =
        drop (length (List.map_filter best_detection frames) - 5)
          (List.map_filter best_detection frames)"
proof -
  have i: "length (detection_history init) \<le> 5" by (simp add: init_def)
  from run_history [OF i, of frames] show ?thesis by (simp add: init_def)
qed

text \<open>
  Claim C4. In both loops the history window never holds more than 5 entries. A frame
  with a detection appends its best detection and, when the window already holds 5
  entries, drops exactly the oldest one. After at least 5 consecutive frames that
  each carry a detection, the window is exactly the best detections of the last 5 of
  them, in arrival order. From the start of the loop the window is always the last 5
  best detections seen so far. The first five conjuncts are about the loop of
  test\_inference.py, the last five about the loop of test\_tflite\_inference.py.
\<close>

theorem window_fifo_capacity:
  assumes "length (detection_history s) \<le> 5"
  shows "length (detection_history (fst (run s frames))) \<le> 5
    \<and> (boxes \<noteq> [] \<longrightarrow>
          (\<exists>d. best_detection boxes = Some d
             \<and> detection_history (fst (process_frame s boxes)) =
                 (if length (detection_history s) = 5 then tl (detection_history s) @ [d]
                  else detection_history s @ [d])))
    \<and> (5 \<le> length recent \<and> (\<forall>boxes\<in>set recent. boxes \<noteq> []) \<longrightarrow>
          length (List.map_filter best_detection recent) = length recent
        \<and> detection_history (fst (run s recent)) =
            drop (length recent - 5) (List.map_filter best_detection recent))
    \<and> length (detection_history (fst (run init frames))) \<le> 5
    \<and> detection_history (fst (run init frames)) =
        drop (length (List.map_filter best_detection frames) - 5)
          (List.map_filter best_detection frames)
    \<and> length (detection_history
          (fst (run_tflite s (tframes :: (string \<times> real \<times> 'b) list list)))) \<le> 5
    \<and> ((dets :: (string \<times> real \<times> 'b) list) \<noteq> [] \<longrightarrow>
          (\<exists>d. best_detection_tflite dets = Some d
             \<and> detection_history (fst (process_frame_tflite s dets)) =
                 (if length (detection_history s) = 5 then tl (detection_history s) @ [d]
                  else detection_history s @ [d])))
    \<and> (5 \<le> length (trecent :: (string \<times> real \<times> 'b) list list)
         \<and> (\<forall>dets\<in>set trecent. dets \<noteq> []) \<longrightarrow>
          length (List.map_filter best_detection_tflite trecent) = length trecent
        \<and> detection_history (fst (run_tflite s trecent)) =
            drop (length trecent - 5) (List.map_filter best_detection_tflite trecent))
    \<and> length (detection_history (fst (run_tflite init tframes))) \<le> 5
    \<and> detection_history (fst (run_tflite init tframes)) =
        drop (length (List.map_filter best_detection_tflite tframes) - 5)
          (List.map_filter best_detection_tflite tframes)"
proof -
  let ?drop = "\<lambda>(l :: string, c :: real, b :: 'b). (l, c)"
  have i: "length (detection_history init) \<le> 5" by (simp add: init_def)
  have a: "length (detection_history (fst (run s frames))) \<le> 5"
    using assms by (rule run_history_length)
  have b: "boxes \<noteq> [] \<longrightarrow>
          (\<exists>d. best_detection boxes = Some d
             \<and> detection_history (fst (process_frame s boxes)) =
                 (if length (detection_history s) = 5 then tl (detection_history s) @ [d]
                  else detection_history s @ [d]))"
    using process_frame_fifo [OF assms] by blast
  have c: "5 \<le> length recent \<and> (\<forall>boxes\<in>set recent. boxes \<noteq> []) \<longrightarrow>
          length (List.map_filter best_detection recent) = length recent
        \<and> detection_history (fst (run s recent)) =
            drop (length recent - 5) (List.map_filter best_detection recent)"
    using run_last5 [OF assms] by blast
  have d: "length (detection_history (fst (run init frames))) \<le> 5"
    using i by (rule run_history_length)
  have e: "detection_history (fst (run init frames)) =
        drop (length (List.map_filter best_detection frames) - 5)
          (List.map_filter best_detection frames)"
    by (rule run_init_history)
  have ta: "length (detection_history (fst (run_tflite s tframes))) \<le> 5"
    unfolding run_tflite_eq using assms by (rule run_history_length)
  have tb: "dets \<noteq> [] \<longrightarrow>
          (\<exists>d. best_detection_tflite dets = Some d
             \<and> detection_history (fst (process_frame_tflite s dets)) =
                 (if length (detection_history s) = 5 then tl (detection_history s) @ [d]
                  else detection_history s @ [d]))"
  proof
    assume "dets \<noteq> []"
    then have "map ?drop dets \<noteq> []" by simp
    from process_frame_fifo [OF assms this]
    show "\<exists>d. best_detection_tflite dets = Some d
             \<and> detection_history (fst (process_frame_tflite s dets)) =
                 (if length (detection_history s) = 5 then tl (detection_history s) @ [d]
                  else detection_history s @ [d])"
      by (simp add: best_detection_tflite_eq process_frame_tflite_eq)
  qed
  have tc: "5 \<le> length trecent \<and> (\<forall>dets\<in>set trecent. dets \<noteq> []) \<longrightarrow>
          length (List.map_filter best_detection_tflite trecent) = length trecent
        \<and> detection_history (fst (run_tflite s trecent)) =
            drop (length trecent - 5) (List.map_filter best_detection_tflite trecent)"
  proof
    assume h: "5 \<le> length trecent \<and> (\<forall>dets\<in>set trecent. dets \<noteq> [])"
    then have 1: "5 \<le> length (map (map ?drop) trecent)"
      and 2: "\<forall>boxes\<in>set (map (map ?drop) trecent). boxes \<noteq> []"
      by auto
    from run_last5 [OF assms 1 2]
    show "length (List.map_filter best_detection_tflite trecent) = length trecent
        \<and> detection_history (fst (run_tflite s trecent)) =
            drop (length trecent - 5) (List.map_filter best_detection_tflite trecent)"
      by (simp add: run_tflite_eq map_filter_tflite)
  qed
  have td: "length (detection_history (fst (run_tflite init tframes))) \<le> 5"
    unfolding run_tflite_eq using i by (rule run_history_length)
  have te: "detection_history (fst (run_tflite init tframes)) =
        drop (length (List.map_filter best_detection_tflite tframes) - 5)
          (List.map_filter best_detection_tflite tframes)"
    using run_init_history [of "map (map ?drop) tframes"]
    by (simp add: run_tflite_eq map_filter_tflite)
  from a b c d e ta tb tc td te show ?thesis by blast
qed

theorem window_fifo_capacity_witness:
  "length (detection_history init) \<le> 5
   \<and> detection_history (fst (run init
        [[(''a'', 1/10)], [(''b'', 2/10)], [(''c'', 3/10)], [(''d'', 4/10)], [(''e'', 5/10)],
         [(''f'', 6/10), (''g'', 1/10)]]))
      = [(''b'', 2/10), (''c'', 3/10), (''d'', 4/10), (''e'', 5/10), (''f'', 6/10)]
   \<and> detection_history (fst (run_tflite init
        [[(''a'', 1/10, ())], [(''b'', 2/10, ())], [(''c'', 3/10, ())], [(''d'', 4/10, ())],
         [(''e'', 5/10, ())], [(''f'', 6/10, ()), (''g'', 1/10, ())]]))
      = [(''b'', 2/10), (''c'', 3/10), (''d'', 4/10), (''e'', 5/10), (''f'', 6/10)]
   \<and> detection_history (fst (process_frame_tflite init [(''g'', 1/10, ()), (''f'', 6/10, ())]))
      = [(''f'', 6/10)]"
proof -
  have i: "length (detection_history init) \<le> 5" by (simp add: init_def)
  have ne: "(5::nat) \<le> length [[(''a'', 1/10)], [(''b'', 2/10)], [(''c'', 3/10)],
         [(''d'', 4/10)], [(''e'', 5/10)], [(''f'', 6/10::real), (''g'', 1/10)]]
      \<and> (\<forall>boxes\<in>set [[(''a'', 1/10)], [(''b'', 2/10)], [(''c'', 3/10)], [(''d'', 4/10)],
         [(''e'', 5/10)], [(''f'', 6/10::real), (''g'', 1/10)]]. boxes \<noteq> [])"
    by simp
  have tne: "(5::nat) \<le> length [[(''a'', 1/10, ())], [(''b'', 2/10, ())], [(''c'', 3/10, ())],
         [(''d'', 4/10, ())], [(''e'', 5/10, ())], [(''f'', 6/10::real, ()), (''g'', 1/10, ())]]
      \<and> (\<forall>dets\<in>set [[(''a'', 1/10, ())], [(''b'', 2/10, ())], [(''c'', 3/10, ())],
         [(''d'', 4/10, ())], [(''e'', 5/10, ())],
         [(''f'', 6/10::real, ()), (''g'', 1/10, ())]]. dets \<noteq> [])"
    by simp
  from window_fifo_capacity [OF i, where frames = "[]" and boxes = "[(''z'', 1)]"
      and recent = "[[(''a'', 1/10)], [(''b'', 2/10)], [(''c'', 3/10)], [(''d'', 4/10)],
         [(''e'', 5/10)], [(''f'', 6/10), (''g'', 1/10)]]"
      and tframes = "[]" and dets = "[(''g'', 1/10, ()), (''f'', 6/10, ())]"
      and trecent = "[[(''a'', 1/10, ())], [(''b'', 2/10, ())], [(''c'', 3/10, ())],
         [(''d'', 4/10, ())], [(''e'', 5/10, ())], [(''f'', 6/10, ()), (''g'', 1/10, ())]]"]
    ne tne i
  show ?thesis
    by (simp add: best_detection_def best_detection_tflite_def List.map_filter_simps init_def)
qed

lemma process_frame_nonempty:
  "boxes \<noteq> [] \<Longrightarrow> detection_history (fst (process_frame s boxes)) \<noteq> []"
  by (cases "best_detection boxes")
    (simp_all add: process_frame_history deque_append_not_Nil best_detection_None_iff)

lemma run_init_NoDetections:
  "NoDetections n \<in> set (snd (run init frames)) \<Longrightarrow>
     0 < n \<and> n \<le> length frames \<and> (\<forall>boxes\<in>set (take n frames). boxes = [])"
  using run_NoDetections [of n init frames] by (simp add: init_def)

text \<open>
  Claim C9. In both loops a frame with a detection leaves the window non-empty, and
  a non-empty window stays non-empty for the rest of the run. So a "No detections in
  recent frames" line at frame \<open>n\<close> means that none of the frames 1 to \<open>n\<close>
  carried a detection. Any number of frames without detection leaves the window as
  it was, and every state line printed during such a gap reports the state of that
  old window. The first five conjuncts are about the loop of test\_inference.py, the
  last five about the loop of test\_tflite\_inference.py.
\<close>

theorem window_never_emptied:
  "(boxes \<noteq> [] \<longrightarrow> detection_history (fst (process_frame s boxes)) \<noteq> [])
   \<and> (detection_history s \<noteq> [] \<longrightarrow> detection_history (fst (run s frames)) \<noteq> [])
   \<and> (NoDetections n \<in> set (snd (run init frames)) \<longrightarrow>
        0 < n \<and> n \<le> length frames \<and> (\<forall>boxes\<in>set (take n frames). boxes = []))
   \<and> detection_history (fst (run s (replicate k []))) = detection_history s
   \<and> (detection_history s \<noteq> [] \<longrightarrow>
        (\<forall>r\<in>set (snd (run s (replicate k []))).
           report_state r = Some (current_state (detection_history s))))
   \<and> ((dets :: (string \<times> real \<times> 'b) list) \<noteq> [] \<longrightarrow>
        detection_history (fst (process_frame_tflite s dets)) \<noteq> [])
   \<and> (detection_history s \<noteq> [] \<longrightarrow>
        detection_history
          (fst (run_tflite s (tframes :: (string \<times> real \<times> 'b) list list))) \<noteq> [])
   \<and> (NoDetections n \<in> set (snd (run_tflite init tframes)) \<longrightarrow>
        0 < n \<and> n \<le> length tframes \<and> (\<forall>dets\<in>set (take n tframes). dets = []))
   \<and> detection_history
        (fst (run_tflite s (replicate k ([] :: (string \<times> real \<times> 'b) list))))
       = detection_history s
   \<and> (detection_history s \<noteq> [] \<longrightarrow>
        (\<forall>r\<in>set (snd (run_tflite s (replicate k ([] :: (string \<times> real \<times> 'b) list)))).
           report_state r = Some (current_state (detection_history s))))"
proof -
  let ?drop = "\<lambda>(l :: string, c :: real, b :: 'b). (l, c)"
  have a: "boxes \<noteq> [] \<longrightarrow> detection_history (fst (process_frame s boxes)) \<noteq> []"
    using process_frame_nonempty by blast
  have b: "NoDetections n \<in> set (snd (run init frames)) \<longrightarrow>
        0 < n \<and> n \<le> length frames \<and> (\<forall>boxes\<in>set (take n frames). boxes = [])"
    using run_init_NoDetections by blast
  have c: "detection_history s \<noteq> [] \<longrightarrow> detection_history (fst (run s frames)) \<noteq> []"
    using run_nonempty by blast
  have d: "detection_history (fst (run s (replicate k []))) = detection_history s"
    by (rule run_empty_frames_history)
  have e: "detection_history s \<noteq> [] \<longrightarrow>
        (\<forall>r\<in>set (snd (run s (replicate k []))).
           report_state r = Some (current_state (detection_history s)))"
    using run_empty_frames_reports by blast
  have ta: "dets \<noteq> [] \<longrightarrow> detection_history (fst (process_frame_tflite s dets)) \<noteq> []"
    using process_frame_nonempty [of "map ?drop dets" s]
    by (simp add: process_frame_tflite_eq)
  have tc: "detection_history s \<noteq> [] \<longrightarrow> detection_history (fst (run_tflite s tframes)) \<noteq> []"
    unfolding run_tflite_eq using run_nonempty by blast
  have tb: "NoDetections n \<in> set (snd (run_tflite init tframes)) \<longrightarrow>
        0 < n \<and> n \<le> length tframes \<and> (\<forall>dets\<in>set (take n tframes). dets = [])"
  proof
    assume "NoDetections n \<in> set (snd (run_tflite init tframes))"
    then have "NoDetections n \<in> set (snd (run init (map (map ?drop) tframes)))"
      by (simp add: run_tflite_eq)
    from run_init_NoDetections [OF this]
    show "0 < n \<and> n \<le> length tframes \<and> (\<forall>dets\<in>set (take n tframes). dets = [])"
      by (simp add: take_map)
  qed
  have rep: "map (map ?drop) (replicate k []) = replicate k []"
    by simp
  have td: "detection_history
        (fst (run_tflite s (replicate k ([] :: (string \<times> real \<times> 'b) list))))
       = detection_history s"
    unfolding run_tflite_eq rep by (rule run_empty_frames_history)
  have te: "detection_history s \<noteq> [] \<longrightarrow>
        (\<forall>r\<in>set (snd (run_tflite s (replicate k ([] :: (string \<times> real \<times> 'b) list)))).
           report_state r = Some (current_state (detection_history s)))"
    unfolding run_tflite_eq rep using run_empty_frames_reports by blast
  from a b c d e ta tb tc td te show ?thesis by blast
qed

lemmas run_tflite_eval = process_frame_tflite_def best_detection_tflite_def

theorem window_never_emptied_witness:
  "[(''drowsy'', 9/10)] \<noteq> ([] :: detection list)
   \<and> detection_history \<lparr>inference_count = 3, detection_history = [(''drowsy'', 9/10)],
         last_reported_state = None\<rparr> \<noteq> []
   \<and> NoDetections 30 \<in> set (snd (run init (replicate 30 [])))
   \<and> snd (run \<lparr>inference_count = 3, detection_history = [(''drowsy'', 9/10)],
         last_reported_state = None\<rparr> (replicate 2 []))
       = [StateReport 5 ''DROWSY'' (9/10) 1 0]
   \<and> NoDetections 30
        \<in> set (snd (run_tflite init (replicate 30 ([] :: (string \<times> real \<times> unit) list))))
   \<and> snd (run_tflite \<lparr>inference_count = 3, detection_history = [(''drowsy'', 9/10)],
         last_reported_state = None\<rparr> (replicate 2 ([] :: (string \<times> real \<times> unit) list)))
       = [StateReport 5 ''DROWSY'' (9/10) 1 0]
   \<and> detection_history (fst (process_frame_tflite init [(''drowsy'', 9/10, ())]))
       = [(''drowsy'', 9/10)]"
proof -
  have a: "NoDetections 30 \<in> set (snd (run init (replicate 30 [])))"
    by (simp add: run_eval)
  have b: "snd (run \<lparr>inference_count = 3, detection_history = [(''drowsy'', 9/10)],
         last_reported_state = None\<rparr> (replicate 2 []))
       = [StateReport 5 ''DROWSY'' (9/10) 1 0]"
    by (simp add: run_eval)
  have ta: "NoDetections 30
        \<in> set (snd (run_tflite init (replicate 30 ([] :: (string \<times> real \<times> unit) list))))"
    using a by (simp add: run_tflite_eq)
  have tb: "snd (run_tflite \<lparr>inference_count = 3, detection_history = [(''drowsy'', 9/10)],
         last_reported_state = None\<rparr> (replicate 2 ([] :: (string \<times> real \<times> unit) list)))
       = [StateReport 5 ''DROWSY'' (9/10) 1 0]"
    using b by (simp add: run_tflite_eq)
  have tc: "detection_history (fst (process_frame_tflite init [(''drowsy'', 9/10, ())]))
       = [(''drowsy'', 9/10)]"
    by (simp add: run_eval run_tflite_eval)
  from window_never_emptied [where boxes = "[(''drowsy'', 9/10)]"
      and s = "\<lparr>inference_count = 3, detection_history = [(''drowsy'', 9/10)],
         last_reported_state = None\<rparr>" and frames = "replicate 30 []" and n = 30 and k = 2
      and dets = "[(''drowsy'', 9/10, ())]"
      and tframes = "replicate 30 ([] :: (string \<times> real \<times> unit) list)"] a b ta tb tc
  show ?thesis by simp
qed




section \<open>y2m: validation and quantisation\<close>




lemma copy2_changes:
  assumes "copy2 env src dst fs = Inl fs' \<or> copy2 env src dst fs = Inr fs'"
    and "fs' q \<noteq> fs q"
  shows "q = (if isdir env dst then joinpath env dst (basename env src) else dst)
     \<and> (\<exists>bytes k. fs src = Some bytes \<and> fs' q = Some (take k bytes))"
proof -
  let ?t = "if isdir env dst then joinpath env dst (basename env src) else dst"
  from assms obtain bytes where b: "fs src = Some bytes"
    by (cases "fs src") (auto simp: copy2_def Let_def)
  from assms b have nt: "?t \<noteq> src" "\<not> isdir env ?t"
    by (auto simp: copy2_def Let_def split: if_splits)
  show ?thesis
  proof (cases "copy_ends env")
    case Copy_completes
    with assms b nt have "fs' = fs(?t \<mapsto> bytes)"
      by (auto simp: copy2_def Let_def split: if_splits)
    with assms(2) b show ?thesis
      by (auto simp: fun_upd_def intro: exI[of _ "length bytes"] split: if_splits)
  next
    case Copy_raises_before_writing
    with assms b nt have "fs' = fs"
      by (auto simp: copy2_def Let_def split: if_splits)
    with assms(2) show ?thesis by simp
  next
    case (Copy_raises_after_writing k)
    with assms b nt have "fs' = fs(?t \<mapsto> take k bytes)"
      by (auto simp: copy2_def Let_def split: if_splits)
    with assms(2) b show ?thesis
      by (auto simp: fun_upd_def split: if_splits)
  qed
qed

lemma copy2_returns:
  assumes "copy2 env src dst fs = Inr fs'"
  shows "fs src \<noteq> None
     \<and> fs' (if isdir env dst then joinpath env dst (basename env src) else dst) = fs src
     \<and> (\<forall>q. fs' q \<noteq> fs q \<longrightarrow> fs' q = fs src)"
proof -
  let ?t = "if isdir env dst then joinpath env dst (basename env src) else dst"
  from assms obtain bytes where b: "fs src = Some bytes"
    by (cases "fs src") (auto simp: copy2_def Let_def)
  from assms b have "fs' = fs(?t \<mapsto> bytes)"
    by (cases "copy_ends env") (auto simp: copy2_def Let_def split: if_splits)
  with b show ?thesis by (auto simp: fun_upd_def)
qed

lemma quantize_from_tflite_cases:
  assumes "quantize_from_tflite env self fs = (res, fs')"
  shows "(res = None \<and> fs' = fs)
     \<or> (fs (tflite_path self) \<noteq> None
        \<and> (res = None \<and> copy2 env (tflite_path self)
              (joinpath env (output_dir self)
                 (replace ''_float32'' [] (stem env (tflite_path self)) @ ''_int8.tflite'')) fs
              = Inl fs'
            \<or> res = Some (joinpath env (output_dir self)
                 (replace ''_float32'' [] (stem env (tflite_path self)) @ ''_int8.tflite''))
              \<and> copy2 env (tflite_path self)
              (joinpath env (output_dir self)
                 (replace ''_float32'' [] (stem env (tflite_path self)) @ ''_int8.tflite'')) fs
              = Inr fs'))"
  using assms
  by (auto simp: quantize_from_tflite_def Let_def split: if_splits option.splits sum.splits)

lemma quantize_from_tflite_frame:
  assumes "quantize_from_tflite env self fs = (res, fs')"
  shows "(\<forall>q. fs' q \<noteq> fs q \<longrightarrow>
            (\<exists>bytes k. fs (tflite_path self) = Some bytes \<and> fs' q = Some (take k bytes)))
      \<and> (\<forall>q q'. fs' q \<noteq> fs q \<and> fs' q' \<noteq> fs q' \<longrightarrow> q = q')
      \<and> (\<forall>p. res = Some p \<longrightarrow>
            p = joinpath env (output_dir self)
                  (replace ''_float32'' [] (stem env (tflite_path self)) @ ''_int8.tflite'')
          \<and> fs (tflite_path self) \<noteq> None
          \<and> (\<forall>q. fs' q \<noteq> fs q \<longrightarrow> fs' q = fs (tflite_path self))
          \<and> (\<not> isdir env p \<longrightarrow> fs' p = fs (tflite_path self))
          \<and> (isdir env p \<longrightarrow>
                fs' (joinpath env p (basename env (tflite_path self))) = fs (tflite_path self)))"
proof -
  let ?out = "joinpath env (output_dir self)
                 (replace ''_float32'' [] (stem env (tflite_path self)) @ ''_int8.tflite'')"
  from quantize_from_tflite_cases [OF assms] consider
      (unchanged) "res = None" "fs' = fs"
    | (raised) "res = None" "copy2 env (tflite_path self) ?out fs = Inl fs'"
    | (returned) "res = Some ?out" "copy2 env (tflite_path self) ?out fs = Inr fs'"
    by blast
  then show ?thesis
  proof cases
    case unchanged
    then show ?thesis by simp
  next
    case raised
    then have c: "copy2 env (tflite_path self) ?out fs = Inl fs'
        \<or> copy2 env (tflite_path self) ?out fs = Inr fs'" by simp
    show ?thesis
      using copy2_changes [OF c] raised(1) by (simp; metis)
  next
    case returned
    then have c: "copy2 env (tflite_path self) ?out fs = Inl fs'
        \<or> copy2 env (tflite_path self) ?out fs = Inr fs'" by simp
    have a: "\<forall>q. fs' q \<noteq> fs q \<longrightarrow>
            (\<exists>bytes k. fs (tflite_path self) = Some bytes \<and> fs' q = Some (take k bytes))"
      using copy2_changes [OF c] by blast
    have b: "\<forall>q q'. fs' q \<noteq> fs q \<and> fs' q' \<noteq> fs q' \<longrightarrow> q = q'"
      using copy2_changes [OF c] by metis
    have d: "fs (tflite_path self) \<noteq> None"
      "\<forall>q. fs' q \<noteq> fs q \<longrightarrow> fs' q = fs (tflite_path self)"
      "\<not> isdir env ?out \<longrightarrow> fs' ?out = fs (tflite_path self)"
      "isdir env ?out \<longrightarrow>
         fs' (joinpath env ?out (basename env (tflite_path self))) = fs (tflite_path self)"
      using copy2_returns [OF returned(2)] by (auto split: if_splits)
    from a b d returned(1) show ?thesis by simp
  qed
qed

text \<open>
  Claim C10, amended. When the converter is constructed without an exception,
  \<open>quantize_int8\<close> returns \<open>None\<close> and changes no file. Otherwise it returns what the
  fallback returns. A call changes at most one file, and a changed file holds bytes
  of the input float32 model only: an initial segment of them when the copy raised,
  all of them when a path is returned. A returned path is \<open>output_dir\<close> joined with
  the \<open>_int8.tflite\<close> name; unless that path is an existing directory, the file at
  it holds exactly the contents of the input model.
\<close>

theorem quantize_int8_copies_float_model:
  "(converter_constructed env \<longrightarrow> quantize_int8 env self fs = (None, fs))
   \<and> (\<not> converter_constructed env \<longrightarrow>
        quantize_int8 env self fs = quantize_from_tflite env self fs)
   \<and> (quantize_int8 env self fs = (res, fs') \<longrightarrow>
        (\<forall>q. fs' q \<noteq> fs q \<longrightarrow>
            (\<exists>bytes k. fs (tflite_path self) = Some bytes \<and> fs' q = Some (take k bytes)))
      \<and> (\<forall>q q'. fs' q \<noteq> fs q \<and> fs' q' \<noteq> fs q' \<longrightarrow> q = q')
      \<and> (\<forall>p. res = Some p \<longrightarrow>
            \<not> converter_constructed env
          \<and> p = joinpath env (output_dir self)
                  (replace ''_float32'' [] (stem env (tflite_path self)) @ ''_int8.tflite'')
          \<and> fs (tflite_path self) \<noteq> None
          \<and> (\<forall>q. fs' q \<noteq> fs q \<longrightarrow> fs' q = fs (tflite_path self))
          \<and> (\<not> isdir env p \<longrightarrow> fs' p = fs (tflite_path self))))"
proof -
  have a: "converter_constructed env \<longrightarrow> quantize_int8 env self fs = (None, fs)"
    by (simp add: quantize_int8_def)
  have b: "\<not> converter_constructed env \<longrightarrow>
        quantize_int8 env self fs = quantize_from_tflite env self fs"
    by (simp add: quantize_int8_def)
  have c: "quantize_int8 env self fs = (res, fs') \<longrightarrow>
        (\<forall>q. fs' q \<noteq> fs q \<longrightarrow>
            (\<exists>bytes k. fs (tflite_path self) = Some bytes \<and> fs' q = Some (take k bytes)))
      \<and> (\<forall>q q'. fs' q \<noteq> fs q \<and> fs' q' \<noteq> fs q' \<longrightarrow> q = q')
      \<and> (\<forall>p. res = Some p \<longrightarrow>
            \<not> converter_constructed env
          \<and> p = joinpath env (output_dir self)
                  (replace ''_float32'' [] (stem env (tflite_path self)) @ ''_int8.tflite'')
          \<and> fs (tflite_path self) \<noteq> None
          \<and> (\<forall>q. fs' q \<noteq> fs q \<longrightarrow> fs' q = fs (tflite_path self))
          \<and> (\<not> isdir env p \<longrightarrow> fs' p = fs (tflite_path self)))"
  proof (cases "converter_constructed env")
    case True
    then show ?thesis by (simp add: quantize_int8_def)
  next
    case False
    show ?thesis
    proof
      assume "quantize_int8 env self fs = (res, fs')"
      with False have "quantize_from_tflite env self fs = (res, fs')"
        by (simp add: quantize_int8_def)
      from quantize_from_tflite_frame [OF this] False
      show "(\<forall>q. fs' q \<noteq> fs q \<longrightarrow>
            (\<exists>bytes k. fs (tflite_path self) = Some bytes \<and> fs' q = Some (take k bytes)))
      \<and> (\<forall>q q'. fs' q \<noteq> fs q \<and> fs' q' \<noteq> fs q' \<longrightarrow> q = q')
      \<and> (\<forall>p. res = Some p \<longrightarrow>
            \<not> converter_constructed env
          \<and> p = joinpath env (output_dir self)
                  (replace ''_float32'' [] (stem env (tflite_path self)) @ ''_int8.tflite'')
          \<and> fs (tflite_path self) \<noteq> None
          \<and> (\<forall>q. fs' q \<noteq> fs q \<longrightarrow> fs' q = fs (tflite_path self))
          \<and> (\<not> isdir env p \<longrightarrow> fs' p = fs (tflite_path self)))"
        by blast
    qed
  qed
  from a b c show ?thesis by blast
qed

theorem quantize_int8_copies_float_model_witness:
  "converter_constructed
     \<lparr>tensorflow_importable = True, parent_iterdir = Some [\<lparr>entry_path = ''out/best_saved_model'',
        entry_name = ''best_saved_model'', entry_is_dir = True\<rparr>],
      from_saved_model_returns = (\<lambda>p. True), stem = (\<lambda>p. ''best_float32''),
      basename = (\<lambda>p. ''best_float32.tflite''), joinpath = (\<lambda>d n. d @ ''/'' @ n),
      isdir = (\<lambda>p. False), interpreter_returns = (\<lambda>c. True),
      copy_ends = Copy_completes\<rparr>
   \<and> quantize_int8
     \<lparr>tensorflow_importable = True, parent_iterdir = Some [\<lparr>entry_path = ''out/best_saved_model'',
        entry_name = ''best_saved_model'', entry_is_dir = True\<rparr>],
      from_saved_model_returns = (\<lambda>p. True), stem = (\<lambda>p. ''best_float32''),
      basename = (\<lambda>p. ''best_float32.tflite''), joinpath = (\<lambda>d n. d @ ''/'' @ n),
      isdir = (\<lambda>p. False), interpreter_returns = (\<lambda>c. True),
      copy_ends = Copy_completes\<rparr>
     \<lparr>tflite_path = ''out/best_float32.tflite'', output_dir = ''out''\<rparr>
     [''out/best_float32.tflite'' \<mapsto> ''TFL3''] = (None, [''out/best_float32.tflite'' \<mapsto> ''TFL3''])
   \<and> \<not> converter_constructed
     \<lparr>tensorflow_importable = True, parent_iterdir = None,
      from_saved_model_returns = (\<lambda>p. True), stem = (\<lambda>p. ''best_float32''),
      basename = (\<lambda>p. ''best_float32.tflite''), joinpath = (\<lambda>d n. d @ ''/'' @ n),
      isdir = (\<lambda>p. False), interpreter_returns = (\<lambda>c. True),
      copy_ends = Copy_completes\<rparr>
   \<and> quantize_int8
     \<lparr>tensorflow_importable = True, parent_iterdir = None,
      from_saved_model_returns = (\<lambda>p. True), stem = (\<lambda>p. ''best_float32''),
      basename = (\<lambda>p. ''best_float32.tflite''), joinpath = (\<lambda>d n. d @ ''/'' @ n),
      isdir = (\<lambda>p. False), interpreter_returns = (\<lambda>c. True),
      copy_ends = Copy_completes\<rparr>
     \<lparr>tflite_path = ''out/best_float32.tflite'', output_dir = ''out''\<rparr>
     [''out/best_float32.tflite'' \<mapsto> ''TFL3'']
       = (Some ''out/best_int8.tflite'', [''out/best_float32.tflite'' \<mapsto> ''TFL3'', ''out/best_int8.tflite'' \<mapsto> ''TFL3''])"
proof -
  have c1: "converter_constructed
     \<lparr>tensorflow_importable = True, parent_iterdir = Some [\<lparr>entry_path = ''out/best_saved_model'',
        entry_name = ''best_saved_model'', entry_is_dir = True\<rparr>],
      from_saved_model_returns = (\<lambda>p. True), stem = (\<lambda>p. ''best_float32''),
      basename = (\<lambda>p. ''best_float32.tflite''), joinpath = (\<lambda>d n. d @ ''/'' @ n),
      isdir = (\<lambda>p. False), interpreter_returns = (\<lambda>c. True),
      copy_ends = Copy_completes\<rparr>"
    by (simp add: converter_constructed_def find_saved_model_dir_def lower_def lower_char_def)
  have c2: "\<not> converter_constructed
     \<lparr>tensorflow_importable = True, parent_iterdir = None,
      from_saved_model_returns = (\<lambda>p. True), stem = (\<lambda>p. ''best_float32''),
      basename = (\<lambda>p. ''best_float32.tflite''), joinpath = (\<lambda>d n. d @ ''/'' @ n),
      isdir = (\<lambda>p. False), interpreter_returns = (\<lambda>c. True),
      copy_ends = Copy_completes\<rparr>"
    by (simp add: converter_constructed_def find_saved_model_dir_def)
  have f2: "quantize_from_tflite
     \<lparr>tensorflow_importable = True, parent_iterdir = None,
      from_saved_model_returns = (\<lambda>p. True), stem = (\<lambda>p. ''best_float32''),
      basename = (\<lambda>p. ''best_float32.tflite''), joinpath = (\<lambda>d n. d @ ''/'' @ n),
      isdir = (\<lambda>p. False), interpreter_returns = (\<lambda>c. True),
      copy_ends = Copy_completes\<rparr>
     \<lparr>tflite_path = ''out/best_float32.tflite'', output_dir = ''out''\<rparr>
     [''out/best_float32.tflite'' \<mapsto> ''TFL3'']
       = (Some ''out/best_int8.tflite'', [''out/best_float32.tflite'' \<mapsto> ''TFL3'', ''out/best_int8.tflite'' \<mapsto> ''TFL3''])"
    by (simp add: quantize_from_tflite_def copy2_def replace_def Let_def)
  have r1: "quantize_int8
     \<lparr>tensorflow_importable = True, parent_iterdir = Some [\<lparr>entry_path = ''out/best_saved_model'',
        entry_name = ''best_saved_model'', entry_is_dir = True\<rparr>],
      from_saved_model_returns = (\<lambda>p. True), stem = (\<lambda>p. ''best_float32''),
      basename = (\<lambda>p. ''best_float32.tflite''), joinpath = (\<lambda>d n. d @ ''/'' @ n),
      isdir = (\<lambda>p. False), interpreter_returns = (\<lambda>c. True),
      copy_ends = Copy_completes\<rparr>
     \<lparr>tflite_path = ''out/best_float32.tflite'', output_dir = ''out''\<rparr>
     [''out/best_float32.tflite'' \<mapsto> ''TFL3''] = (None, [''out/best_float32.tflite'' \<mapsto> ''TFL3''])"
    by (rule mp [OF quantize_int8_copies_float_model [THEN conjunct1] c1])
  have r2: "quantize_int8
     \<lparr>tensorflow_importable = True, parent_iterdir = None,
      from_saved_model_returns = (\<lambda>p. True), stem = (\<lambda>p. ''best_float32''),
      basename = (\<lambda>p. ''best_float32.tflite''), joinpath = (\<lambda>d n. d @ ''/'' @ n),
      isdir = (\<lambda>p. False), interpreter_returns = (\<lambda>c. True),
      copy_ends = Copy_completes\<rparr>
     \<lparr>tflite_path = ''out/best_float32.tflite'', output_dir = ''out''\<rparr>
     [''out/best_float32.tflite'' \<mapsto> ''TFL3'']
     = quantize_from_tflite
     \<lparr>tensorflow_importable = True, parent_iterdir = None,
      from_saved_model_returns = (\<lambda>p. True), stem = (\<lambda>p. ''best_float32''),
      basename = (\<lambda>p. ''best_float32.tflite''), joinpath = (\<lambda>d n. d @ ''/'' @ n),
      isdir = (\<lambda>p. False), interpreter_returns = (\<lambda>c. True),
      copy_ends = Copy_completes\<rparr>
     \<lparr>tflite_path = ''out/best_float32.tflite'', output_dir = ''out''\<rparr>
     [''out/best_float32.tflite'' \<mapsto> ''TFL3'']"
    by (rule mp [OF quantize_int8_copies_float_model [THEN conjunct2, THEN conjunct1] c2])
  show ?thesis
    unfolding r1 r2 f2 using c1 c2 by simp
qed

text \<open>
  Claim C10 as stated fails: when \<open>output_dir/best_int8.tflite\<close> is an existing
  directory, \<open>shutil.copy2\<close> copies the model into that directory and returns
  normally; \<open>quantize_int8\<close> then returns the path of the directory, which is not a
  file holding a copy of the input model.
\<close>

theorem quantize_int8_returns_directory_path:
  "fst (quantize_int8
     \<lparr>tensorflow_importable = True, parent_iterdir = None,
      from_saved_model_returns = (\<lambda>p. True), stem = (\<lambda>p. ''best_float32''),
      basename = (\<lambda>p. ''best_float32.tflite''), joinpath = (\<lambda>d n. d @ ''/'' @ n),
      isdir = (\<lambda>p. p = ''out/best_int8.tflite''), interpreter_returns = (\<lambda>c. True),
      copy_ends = Copy_completes\<rparr>
     \<lparr>tflite_path = ''out/best_float32.tflite'', output_dir = ''out''\<rparr>
     [''out/best_float32.tflite'' \<mapsto> ''TFL3'']) = Some ''out/best_int8.tflite''
   \<and> snd (quantize_int8
     \<lparr>tensorflow_importable = True, parent_iterdir = None,
      from_saved_model_returns = (\<lambda>p. True), stem = (\<lambda>p. ''best_float32''),
      basename = (\<lambda>p. ''best_float32.tflite''), joinpath = (\<lambda>d n. d @ ''/'' @ n),
      isdir = (\<lambda>p. p = ''out/best_int8.tflite''), interpreter_returns = (\<lambda>c. True),
      copy_ends = Copy_completes\<rparr>
     \<lparr>tflite_path = ''out/best_float32.tflite'', output_dir = ''out''\<rparr>
     [''out/best_float32.tflite'' \<mapsto> ''TFL3'']) ''out/best_int8.tflite'' = None
   \<and> snd (quantize_int8
     \<lparr>tensorflow_importable = True, parent_iterdir = None,
      from_saved_model_returns = (\<lambda>p. True), stem = (\<lambda>p. ''best_float32''),
      basename = (\<lambda>p. ''best_float32.tflite''), joinpath = (\<lambda>d n. d @ ''/'' @ n),
      isdir = (\<lambda>p. p = ''out/best_int8.tflite''), interpreter_returns = (\<lambda>c. True),
      copy_ends = Copy_completes\<rparr>
     \<lparr>tflite_path = ''out/best_float32.tflite'', output_dir = ''out''\<rparr>
     [''out/best_float32.tflite'' \<mapsto> ''TFL3'']) ''out/best_int8.tflite/best_float32.tflite'' = Some ''TFL3''
   \<and> isdir
     \<lparr>tensorflow_importable = True, parent_iterdir = None,
      from_saved_model_returns = (\<lambda>p. True), stem = (\<lambda>p. ''best_float32''),
      basename = (\<lambda>p. ''best_float32.tflite''), joinpath = (\<lambda>d n. d @ ''/'' @ n),
      isdir = (\<lambda>p. p = ''out/best_int8.tflite''), interpreter_returns = (\<lambda>c. True),
      copy_ends = Copy_completes\<rparr> ''out/best_int8.tflite''"
proof -
  have c3: "\<not> converter_constructed
     \<lparr>tensorflow_importable = True, parent_iterdir = None,
      from_saved_model_returns = (\<lambda>p. True), stem = (\<lambda>p. ''best_float32''),
      basename = (\<lambda>p. ''best_float32.tflite''), joinpath = (\<lambda>d n. d @ ''/'' @ n),
      isdir = (\<lambda>p. p = ''out/best_int8.tflite''), interpreter_returns = (\<lambda>c. True),
      copy_ends = Copy_completes\<rparr>"
    by (simp add: converter_constructed_def find_saved_model_dir_def)
  have f3: "quantize_from_tflite
     \<lparr>tensorflow_importable = True, parent_iterdir = None,
      from_saved_model_returns = (\<lambda>p. True), stem = (\<lambda>p. ''best_float32''),
      basename = (\<lambda>p. ''best_float32.tflite''), joinpath = (\<lambda>d n. d @ ''/'' @ n),
      isdir = (\<lambda>p. p = ''out/best_int8.tflite''), interpreter_returns = (\<lambda>c. True),
      copy_ends = Copy_completes\<rparr>
     \<lparr>tflite_path = ''out/best_float32.tflite'', output_dir = ''out''\<rparr>
     [''out/best_float32.tflite'' \<mapsto> ''TFL3'']
       = (Some ''out/best_int8.tflite'', [''out/best_float32.tflite'' \<mapsto> ''TFL3'', ''out/best_int8.tflite/best_float32.tflite'' \<mapsto> ''TFL3''])"
    by (simp add: quantize_from_tflite_def copy2_def replace_def Let_def)
  have r3: "quantize_int8
     \<lparr>tensorflow_importable = True, parent_iterdir = None,
      from_saved_model_returns = (\<lambda>p. True), stem = (\<lambda>p. ''best_float32''),
      basename = (\<lambda>p. ''best_float32.tflite''), joinpath = (\<lambda>d n. d @ ''/'' @ n),
      isdir = (\<lambda>p. p = ''out/best_int8.tflite''), interpreter_returns = (\<lambda>c. True),
      copy_ends = Copy_completes\<rparr>
     \<lparr>tflite_path = ''out/best_float32.tflite'', output_dir = ''out''\<rparr>
     [''out/best_float32.tflite'' \<mapsto> ''TFL3'']
       = (Some ''out/best_int8.tflite'', [''out/best_float32.tflite'' \<mapsto> ''TFL3'', ''out/best_int8.tflite/best_float32.tflite'' \<mapsto> ''TFL3''])"
    using c3 f3 by (simp add: quantize_int8_def)
  show ?thesis
    unfolding r3 by simp
qed

end
